theory Spec2Isabelle
  imports Complex_Main
begin

section \<open>Information gain (notebook 2b, function \<open>info_gain\<close>)\<close>

text \<open>
  Exceptions of the Python code are values of \<open>error\<close>: a missing column is a
  \<open>KeyError\<close>, reading \<open>y[i]\<close> past the end of the labels is a \<open>LookupError\<close> (the
  common base class of what a Series and a list raise), and \<open>float / 0\<close> is a
  \<open>ZeroDivisionError\<close>.
\<close>

datatype error = KeyError | LookupError | ZeroDivisionError

text \<open>
  A value held in a column or in the labels is either NaN (the float that pandas also
  uses for a missing entry) or any other value. Python's \<open>==\<close> is equality on the
  other values and is false whenever a side is NaN, also for NaN against itself.
\<close>

datatype 'a cell = NaN | Val 'a

fun py_eq :: "'a cell \<Rightarrow> 'a cell \<Rightarrow> bool" where
  "py_eq (Val a) (Val b) = (a = b)"
| "py_eq _ _ = False"

text \<open>
  The notebook's numbers are IEEE doubles. A double is modelled as a \<open>real cell\<close>:
  NaN, or a real number (\<open>np.log\<close> is \<^const>\<open>ln\<close>). Arithmetic with a NaN operand
  gives NaN, and every comparison with NaN is false.
\<close>

fun fadd :: "real cell \<Rightarrow> real cell \<Rightarrow> real cell" where
  "fadd (Val a) (Val b) = Val (a + b)"
| "fadd _ _ = NaN"

fun fmul :: "real cell \<Rightarrow> real cell \<Rightarrow> real cell" where
  "fmul (Val a) (Val b) = Val (a * b)"
| "fmul _ _ = NaN"

fun py_ge :: "real cell \<Rightarrow> real cell \<Rightarrow> bool" where
  "py_ge (Val a) (Val b) = (b \<le> a)"
| "py_ge _ _ = False"

text \<open>
  \<open>list(set(xs))\<close>: one entry for each group of values that are \<open>==\<close> to one another,
  in some order. A NaN is \<open>==\<close> to nothing, so NaN objects are not merged: the model
  keeps one entry for each (a set tells objects apart by identity before it asks
  \<open>==\<close>, so NaNs that are one shared object would be a single entry; lemmas
  \<open>new_entropy_from_any_order\<close> and \<open>gain_loop_any_order\<close> show that neither the
  order nor the number of NaN entries changes what \<open>info_gain\<close> computes).
\<close>

fun py_distinct :: "'a cell list \<Rightarrow> 'a cell list" where
  "py_distinct [] = []"
| "py_distinct (x # xs) =
     (if list_ex (py_eq x) xs then py_distinct xs else x # py_distinct xs)"

text \<open>
  A pandas DataFrame, as far as \<open>info_gain\<close> reads it: \<open>len(X)\<close> is the number of
  rows of the index, and \<open>X[feature]\<close> is a column. In a DataFrame every column has
  one entry per row (\<open>wf_frame\<close>).
\<close>

record 'v frame =
  nrows :: nat
  columns :: "string \<rightharpoonup> 'v cell list"

definition len_frame :: "'v frame \<Rightarrow> nat" where
  "len_frame X = nrows X"

definition wf_frame :: "'v frame \<Rightarrow> bool" where
  "wf_frame X = (\<forall>c \<in> ran (columns X). length c = nrows X)"

text \<open>
  \<open>scipy.stats.entropy(pk, base=None)\<close> is imported from the library, not defined in
  the notebook. Its documented behaviour: \<open>pk\<close> is normalised to sum 1, the result is
  \<open>sum(entr(pk))\<close> with \<open>entr(x) = -x * log(x)\<close> for \<open>x > 0\<close> and \<open>0\<close> at \<open>x = 0\<close>,
  divided by \<open>log(base)\<close> when a base is given; the default is the natural logarithm.
  This definition is the function on lists of numbers that are not negative and do not
  sum to zero, and on the empty list (where it is 0); \<open>new_entropy_from\<close> below
  calls it only on such lists and treats the remaining case, a list of NaNs, itself.
\<close>

definition entr :: "real \<Rightarrow> real" where
  "entr x = (if 0 < x then - x * ln x else 0)"

definition entropy :: "real list \<Rightarrow> real option \<Rightarrow> real" where
  "entropy pk base =
     (let s = sum_list pk;
          S = sum_list (map (\<lambda>p. entr (p / s)) pk)
      in case base of None \<Rightarrow> S | Some b \<Rightarrow> S / ln b)"

text \<open>
  \<open>new_y = [y[i] for i, d in enumerate(X[feature].values) if d == value]\<close>:
  the column is walked with its index \<open>i\<close>; \<open>y[i]\<close> is read only where the entry
  is \<open>==\<close> to \<open>value\<close>, and raises when \<open>y\<close> has no position \<open>i\<close>. The labels \<open>y\<close>
  are read by position (a list, or a Series with the default index, as the notebook's
  \<open>y = X.pop('survived')\<close>).
\<close>

fun new_y_from :: "nat \<Rightarrow> 'v cell list \<Rightarrow> 'l cell list \<Rightarrow> 'v cell \<Rightarrow> error + 'l cell list" where
  "new_y_from i [] y val = Inr []"
| "new_y_from i (d # ds) y val =
     (if py_eq d val then
        (if i < length y then
           (case new_y_from (Suc i) ds y val of
              Inl e \<Rightarrow> Inl e
            | Inr r \<Rightarrow> Inr (y ! i # r))
         else Inl LookupError)
      else new_y_from (Suc i) ds y val)"

text \<open>
  The double loop that counts, for each \<open>v\<close> of \<open>class_values\<close>, the labels \<open>c\<close> of
  \<open>new_y\<close> with \<open>c == v\<close> (a float array that starts at zero). The count of a NaN
  entry stays 0.
\<close>

definition class_counts :: "'l cell list \<Rightarrow> 'l cell list \<Rightarrow> real list" where
  "class_counts class_values new_y =
     map (\<lambda>v. real (length (filter (\<lambda>c. py_eq c v) new_y))) class_values"

text \<open>
  \<open>nc = float(np.sum(class_counts))\<close>;
  \<open>new_entropy = entropy([class_counts[c] / nc for c in range(len(class_values))])\<close>:
  the call gives no \<open>base\<close>. When there are classes and \<open>nc\<close> is \<open>0.0\<close> (every label
  of \<open>new_y\<close> is NaN), each quotient is the numpy division \<open>0.0 / 0.0\<close>, which gives NaN
  with a warning and no exception, and the entropy of a list of NaNs is NaN.
\<close>

definition new_entropy_from :: "'l cell list \<Rightarrow> 'l cell list \<Rightarrow> real cell" where
  "new_entropy_from class_values new_y =
     (let cc = class_counts class_values new_y;
          nc = sum_list cc
      in if cc \<noteq> [] \<and> nc = 0 then NaN
         else Val (entropy (map (\<lambda>c. c / nc) cc) None))"

text \<open>\<open>class_values = list(set(new_y))\<close>, then the counts and the entropy.\<close>

definition new_entropy :: "'l cell list \<Rightarrow> real cell" where
  "new_entropy new_y = new_entropy_from (py_distinct new_y) new_y"

text \<open>
  The loop \<open>for value in values\<close>. The slots \<open>feature_counts[ivalue]\<close> and
  \<open>E[ivalue]\<close> start at zero and are written once, in the iteration that reads them,
  so they are \<open>len(new_y)\<close> and \<open>new_entropy\<close>.
  \<open>gain += float(feature_counts[ivalue])/n * E[ivalue]\<close> divides a float by the
  Python int \<open>n\<close>.
\<close>

fun gain_loop ::
  "nat \<Rightarrow> 'v cell list \<Rightarrow> 'l cell list \<Rightarrow> 'v cell list \<Rightarrow> real cell \<Rightarrow> error + real cell" where
  "gain_loop n col y [] gain = Inr gain"
| "gain_loop n col y (val # vals) gain =
     (case new_y_from 0 col y val of
        Inl e \<Rightarrow> Inl e
      | Inr new_y \<Rightarrow>
          if n = 0 then Inl ZeroDivisionError
          else gain_loop n col y vals
                 (fadd gain (fmul (Val (real (length new_y) / real n)) (new_entropy new_y))))"

text \<open>
  \<open>def info_gain(X, y, feature)\<close>: \<open>gain = 0\<close>, \<open>n = len(X)\<close>,
  \<open>values = list(set(X[feature]))\<close>, the loop, \<open>return gain\<close>.
\<close>

definition info_gain :: "'v frame \<Rightarrow> 'l cell list \<Rightarrow> string \<Rightarrow> error + real cell" where
  "info_gain X y feature =
     (let n = len_frame X in
      case columns X feature of
        None \<Rightarrow> Inl KeyError
      | Some col \<Rightarrow> gain_loop n col y (py_distinct col) (Val 0))"

text \<open>
  The labels of the rows whose column entry is \<open>==\<close> to \<open>val\<close>, read by position:
  what \<open>new_y\<close> is when \<open>y\<close> has a label for every row (lemma \<open>new_y_from_zip\<close>).
\<close>

definition new_y_at :: "'v cell list \<Rightarrow> 'l cell list \<Rightarrow> 'v cell \<Rightarrow> 'l cell list" where
  "new_y_at col y val = map snd (filter (\<lambda>(d, l). py_eq d val) (zip col y))"

subsection \<open>The gain as the specification words it\<close>

text \<open>
  Section 4.1 of the specification, word for word, for comparison with \<open>info_gain\<close>:
  the empirical probability of a class is (count of class)/(total count); the entropy is
  \<open>-\<Sum> p * log2 p\<close> over the classes that occur; the gain of a feature is the entropy
  of all labels minus, for each distinct value \<open>x\<close> of the feature, \<open>|S_x|/|S|\<close> times
  the entropy of the labels of \<open>S_x\<close>.
\<close>

text \<open>The partition \<open>S_x\<close>: the labels of the examples whose feature value is \<open>x\<close>.\<close>

definition labels_at :: "'v list \<Rightarrow> 'l list \<Rightarrow> 'v \<Rightarrow> 'l list" where
  "labels_at col y val = map snd (filter (\<lambda>(d, l). d = val) (zip col y))"

definition spec_entropy :: "'l list \<Rightarrow> real" where
  "spec_entropy ls =
     - (\<Sum>v\<leftarrow>remdups ls.
          (real (length (filter (\<lambda>c. c = v) ls)) / real (length ls)) *
          log 2 (real (length (filter (\<lambda>c. c = v) ls)) / real (length ls)))"

definition spec_gain :: "'v list \<Rightarrow> 'l list \<Rightarrow> real" where
  "spec_gain col y =
     spec_entropy (take (length col) y) -
     (\<Sum>x\<leftarrow>remdups col.
        real (length (labels_at col y x)) / real (length col) *
        spec_entropy (labels_at col y x))"

section \<open>Out-of-core training (notebook 5b, function \<open>batch_train\<close>)\<close>

text \<open>
  Estimators are mutable objects, and the question is which object a call changes, so
  the objects live in an explicit store: a list of objects, a reference being an index
  into it. Creating an object appends to the list.
\<close>

datatype train_error =
  NotAnEstimator | SamplingError | IndexError | FileNotFoundError | FitError

record ('p, 'm) estimator =
  params :: 'p
  fitted :: "'m option"

type_synonym ('p, 'm) store = "('p, 'm) estimator list"

text \<open>
  What \<open>batch_train\<close> calls but the notebook does not define is a parameter:
  \<^item> \<open>rng_init seed\<close> is \<open>np.random.RandomState(seed=seed)\<close>, and
    \<open>choice g n size\<close> is \<open>rng.choice(np.arange(n), size=size)\<close>: the sampled
    indices and the generator's next state, or an exception;
  \<^item> \<open>transform\<close> is \<open>HashingVectorizer(encoding='latin-1').transform\<close>;
  \<^item> \<open>partial_fit_self\<close> is what the estimator's method \<open>partial_fit(X, y, classes)\<close>
    does to the object it is called on: the object afterwards, and the exception it
    raised, if any. A method call reaches no other estimator.
\<close>

record ('g, 'x, 'p, 'm) library =
  rng_init :: "int \<Rightarrow> 'g"
  choice :: "'g \<Rightarrow> nat \<Rightarrow> nat \<Rightarrow> train_error + (nat list \<times> 'g)"
  transform :: "string list \<Rightarrow> 'x"
  partial_fit_self ::
    "('p, 'm) estimator \<Rightarrow> 'x \<Rightarrow> int list \<Rightarrow> int list \<Rightarrow> ('p, 'm) estimator \<times> train_error option"

text \<open>
  \<open>sklearn.base.clone(clf)\<close>, as documented: a new, unfitted estimator with the same
  parameters (copied, not shared). The argument is only read.
\<close>

definition clone :: "nat \<Rightarrow> ('p, 'm) store \<Rightarrow> nat \<times> ('p, 'm) store" where
  "clone clf h = (length h, h @ [\<lparr>params = params (h ! clf), fitted = None\<rparr>])"

text \<open>
  \<open>c_clf.partial_fit(X=X_batch, y=batch_labels, classes=[0, 1])\<close>: the method runs
  on the object that \<open>c_clf\<close> refers to.
\<close>

definition partial_fit ::
  "('g, 'x, 'p, 'm) library \<Rightarrow> nat \<Rightarrow> 'x \<Rightarrow> int list \<Rightarrow> int list \<Rightarrow> ('p, 'm) store
   \<Rightarrow> train_error option \<times> ('p, 'm) store" where
  "partial_fit L c X y classes h =
     (let (obj, err) = partial_fit_self L (h ! c) X y classes
      in (err, h[c := obj]))"

text \<open>
  The inner loop: \<open>for i in rnd_idx: with open(fnames[i], 'r') as f:
  documents.append(f.read())\<close>. The file system maps a name to the file's text.
\<close>

fun read_documents ::
  "(string \<rightharpoonup> string) \<Rightarrow> string list \<Rightarrow> nat list \<Rightarrow> train_error + string list" where
  "read_documents fs fnames [] = Inr []"
| "read_documents fs fnames (i # rest) =
     (if i < length fnames then
        (case fs (fnames ! i) of
           None \<Rightarrow> Inl FileNotFoundError
         | Some text \<Rightarrow>
             (case read_documents fs fnames rest of
                Inl e \<Rightarrow> Inl e
              | Inr documents \<Rightarrow> Inr (text # documents)))
      else Inl IndexError)"

text \<open>\<open>batch_labels = labels[rnd_idx]\<close>: indexing an array with an array of indices.\<close>

definition index_labels :: "int list \<Rightarrow> nat list \<Rightarrow> train_error + int list" where
  "index_labels labels rnd_idx =
     (if list_all (\<lambda>i. i < length labels) rnd_idx
      then Inr (map (\<lambda>i. labels ! i) rnd_idx)
      else Inl IndexError)"

text \<open>
  \<open>for i in range(iterations)\<close>: sample, read the documents, take their labels,
  vectorise, and train \<open>c_clf\<close> on the batch. An exception ends the loop; the store is
  returned as the exception left it.
\<close>

fun train_loop ::
  "('g, 'x, 'p, 'm) library \<Rightarrow> (string \<rightharpoonup> string) \<Rightarrow> string list \<Rightarrow> int list \<Rightarrow> nat \<Rightarrow> nat
   \<Rightarrow> nat \<Rightarrow> 'g \<Rightarrow> ('p, 'm) store \<Rightarrow> train_error option \<times> ('p, 'm) store" where
  "train_loop L fs fnames labels batchsize c_clf 0 rng h = (None, h)"
| "train_loop L fs fnames labels batchsize c_clf (Suc k) rng h =
     (case choice L rng (length labels) batchsize of
        Inl e \<Rightarrow> (Some e, h)
      | Inr (rnd_idx, rng') \<Rightarrow>
          (case read_documents fs fnames rnd_idx of
             Inl e \<Rightarrow> (Some e, h)
           | Inr documents \<Rightarrow>
               (case index_labels labels rnd_idx of
                  Inl e \<Rightarrow> (Some e, h)
                | Inr batch_labels \<Rightarrow>
                    (case partial_fit L c_clf (transform L documents) batch_labels [0, 1] h of
                       (Some e, h') \<Rightarrow> (Some e, h')
                     | (None, h') \<Rightarrow>
                         train_loop L fs fnames labels batchsize c_clf k rng' h'))))"

text \<open>
  \<open>def batch_train(clf, fnames, labels, iterations=25, batchsize=1000, random_seed=1)\<close>:
  \<open>c_clf = clone(clf)\<close>, the generator, the loop, \<open>return c_clf\<close>. The result is
  the returned reference or the exception, with the store afterwards.
\<close>

definition batch_train ::
  "('g, 'x, 'p, 'm) library \<Rightarrow> (string \<rightharpoonup> string) \<Rightarrow> nat \<Rightarrow> string list \<Rightarrow> int list \<Rightarrow> nat \<Rightarrow> nat
   \<Rightarrow> int \<Rightarrow> ('p, 'm) store \<Rightarrow> (train_error + nat) \<times> ('p, 'm) store" where
  "batch_train L fs clf fnames labels iterations batchsize random_seed h =
     (if clf < length h then
        (let (c_clf, h1) = clone clf h;
             rng = rng_init L random_seed
         in case train_loop L fs fnames labels batchsize c_clf iterations rng h1 of
              (Some e, h') \<Rightarrow> (Inl e, h')
            | (None, h') \<Rightarrow> (Inr c_clf, h'))
      else (Inl NotAnEstimator, h))"

text \<open>
  A small instance of the library, to run \<open>batch_train\<close> on a concrete input: the
  generator is a counter, a batch is a single index repeated, the vectoriser counts
  characters, and training adds the count to the fitted state.
\<close>

definition toy_library :: "(nat, nat, string, nat) library" where
  "toy_library = \<lparr>rng_init = (\<lambda>seed. nat seed),
     choice = (\<lambda>g n size. if n = 0 then Inl SamplingError else Inr (replicate size (g mod n), Suc g)),
     transform = (\<lambda>docs. length (concat docs)),
     partial_fit_self = (\<lambda>obj X y classes.
        (obj\<lparr>fitted := Some (X + (case fitted obj of None \<Rightarrow> 0 | Some m \<Rightarrow> m))\<rparr>, None))\<rparr>"

section \<open>The ID3 tree builder (specification, section 4.2)\<close>

text \<open>
  Modelled from the spec: the greedy tree builder. The repository has no implementation
  of it: notebook 2b gives the algorithm as pseudocode in a markdown cell ("if all
  response data have the same class: return leaf with data label; else if no features:
  return leaf with most common label; else: choose the variable that maximizes
  information gain, add a branch for each of its values, remove the variable and call
  the algorithm again on each branch") and then uses the library's tree classifier.
  The definitions below follow section 4.2 of the specification, which words the same
  algorithm, and its data model (section 3).
\<close>

datatype ('f, 'v, 'l) tree = Leaf 'l | Node 'f "('v \<times> ('f, 'v, 'l) tree) list"

datatype build_error = EmptyInputError | InconsistentSchemaError

text \<open>An example maps feature names to values and carries one label.\<close>

type_synonym ('f, 'v, 'l) example = "('f \<rightharpoonup> 'v) \<times> 'l"

text \<open>
  Modelled from the spec: the majority label of rule 2. The tie-break the specification
  asks to fix: among the most frequent labels, the one that occurs first in the dataset.
\<close>

fun most_common_from :: "'l list \<Rightarrow> 'l \<Rightarrow> 'l list \<Rightarrow> 'l" where
  "most_common_from ls best [] = best"
| "most_common_from ls best (c # cs) =
     (if count_list ls best < count_list ls c
      then most_common_from ls c cs
      else most_common_from ls best cs)"

definition majority_label :: "'l \<Rightarrow> 'l list \<Rightarrow> 'l" where
  "majority_label l0 rest = most_common_from (l0 # rest) l0 rest"

text \<open>
  Modelled from the spec: "fails with an inconsistent schema error if an example is
  missing a feature value required during a split". A split evaluates the gain of every
  remaining candidate, so every example must have a value for each of them.
\<close>

definition schema_ok :: "('f, 'v, 'l) example list \<Rightarrow> 'f list \<Rightarrow> bool" where
  "schema_ok rows feats = list_all (\<lambda>(r, l). list_all (\<lambda>f. r f \<noteq> None) feats) rows"

text \<open>
  Modelled from the spec: \<open>X* = argmax\<close> of the information gain (\<open>spec_gain\<close>) over
  the remaining features, "ties broken deterministically, e.g., first feature in a
  fixed iteration order": the first feature of the list that reaches the maximum.
\<close>

definition feature_gain :: "('f, 'v, 'l) example list \<Rightarrow> 'f \<Rightarrow> real" where
  "feature_gain rows f = spec_gain (map (\<lambda>(r, l). r f) rows) (map snd rows)"

fun argmax_from :: "('f \<Rightarrow> real) \<Rightarrow> 'f \<Rightarrow> 'f list \<Rightarrow> 'f" where
  "argmax_from g best [] = best"
| "argmax_from g best (f # fs) =
     (if g best < g f then argmax_from g f fs else argmax_from g best fs)"

definition best_feature :: "('f, 'v, 'l) example list \<Rightarrow> 'f list \<Rightarrow> 'f" where
  "best_feature rows feats = argmax_from (feature_gain rows) (hd feats) (tl feats)"

text \<open>
  Modelled from the spec: "each distinct value v of X* observed in the current subset"
  and "the sub-subset where X* = v".
\<close>

definition observed_values :: "('f, 'v, 'l) example list \<Rightarrow> 'f \<Rightarrow> 'v list" where
  "observed_values rows f = remdups (List.map_filter (\<lambda>(r, l). r f) rows)"

definition subset_where ::
  "('f, 'v, 'l) example list \<Rightarrow> 'f \<Rightarrow> 'v \<Rightarrow> ('f, 'v, 'l) example list" where
  "subset_where rows f v = filter (\<lambda>(r, l). r f = Some v) rows"

text \<open>The children of a node, or the first error that building one of them gave.\<close>

fun collect :: "('v \<times> ('e + 't)) list \<Rightarrow> 'e + ('v \<times> 't) list" where
  "collect [] = Inr []"
| "collect ((v, Inl e) # rest) = Inl e"
| "collect ((v, Inr t) # rest) =
     (case collect rest of Inl e \<Rightarrow> Inl e | Inr cs \<Rightarrow> Inr ((v, t) # cs))"

lemma argmax_from_mem: "argmax_from g best fs \<in> insert best (set fs)"
  by (induction fs arbitrary: best) (auto split: if_splits)

lemma best_feature_mem: "feats \<noteq> [] \<Longrightarrow> best_feature rows feats \<in> set feats"
  using argmax_from_mem[of "feature_gain rows" "hd feats" "tl feats"]
  by (cases feats) (auto simp: best_feature_def)

lemma length_removeAll_less: "f \<in> set fs \<Longrightarrow> length (removeAll f fs) < length fs"
  by (induction fs) (auto simp: less_Suc_eq_le length_removeAll_less_eq)

text \<open>
  Modelled from the spec: the builder, its three outcomes in the priority order of
  section 4.2. (1) All examples share one label: a leaf with that label. (2) No candidate
  feature is left: a leaf with the majority label. (3) Otherwise an internal node on
  \<open>X*\<close>, with one child per observed value \<open>v\<close> of \<open>X*\<close>, built from the examples with
  \<open>X* = v\<close> and the candidates without \<open>X*\<close>. An empty dataset has no label to put in a
  leaf and no entropy: it is the empty-input error of section 7.
  Each recursive call has fewer candidates, so the builder terminates.
\<close>

function id3 ::
  "('f, 'v, 'l) example list \<Rightarrow> 'f list \<Rightarrow> build_error + ('f, 'v, 'l) tree" where
  "id3 [] feats = Inl EmptyInputError"
| "id3 ((r0, l0) # rest) feats =
     (if list_all (\<lambda>(r, l). l = l0) rest then Inr (Leaf l0)
      else if feats = [] then Inr (Leaf (majority_label l0 (map snd rest)))
      else if \<not> schema_ok ((r0, l0) # rest) feats then Inl InconsistentSchemaError
      else
        (let X = best_feature ((r0, l0) # rest) feats in
         case collect (map (\<lambda>v. (v, id3 (subset_where ((r0, l0) # rest) X v) (removeAll X feats)))
                          (observed_values ((r0, l0) # rest) X)) of
           Inl e \<Rightarrow> Inl e
         | Inr children \<Rightarrow> Inr (Node X children)))"
  by pat_completeness auto
termination
proof (relation "measure (\<lambda>(rows, feats). length feats)")
  show "wf (measure (\<lambda>(rows, feats). length feats))" by simp
next
  fix r0 l0 rest feats X v
  assume "feats \<noteq> []" and "X = best_feature ((r0, l0) # rest) feats"
  then show "((subset_where ((r0, l0) # rest) X v, removeAll X feats), (r0, l0) # rest, feats)
      \<in> measure (\<lambda>(rows, feats). length feats)"
    by (simp add: length_removeAll_less best_feature_mem)
qed

declare id3.simps [simp del]

text \<open>
  The splitting features met on each path from the root to a leaf, in order.
\<close>

fun paths :: "('f, 'v, 'l) tree \<Rightarrow> 'f list list" where
  "paths (Leaf l) = [[]]"
| "paths (Node f cs) = concat (map (\<lambda>(v, c). map (\<lambda>p. f # p) (paths c)) cs)"

text \<open>
  A dataset to run the builder on: two features, and a label that neither of them
  decides alone.
\<close>

definition xor_rows :: "(string, string, string) example list" where
  "xor_rows =
     [([''sex'' \<mapsto> ''m'', ''adult'' \<mapsto> ''y''], ''no''),
      ([''sex'' \<mapsto> ''m'', ''adult'' \<mapsto> ''n''], ''yes''),
      ([''sex'' \<mapsto> ''f'', ''adult'' \<mapsto> ''y''], ''yes''),
      ([''sex'' \<mapsto> ''f'', ''adult'' \<mapsto> ''n''], ''no'')]"

section \<open>Properties of \<open>info_gain\<close>\<close>

subsection \<open>Entropy is never negative\<close>

lemma entr_nonneg: "0 \<le> x \<Longrightarrow> x \<le> 1 \<Longrightarrow> 0 \<le> entr x"
  by (simp add: entr_def mult_nonneg_nonpos)

lemma entropy_nonneg:
  assumes "\<forall>p \<in> set pk. 0 \<le> p"
  shows "0 \<le> entropy pk None"
proof -
  have "0 \<le> entr (p / sum_list pk)" if "p \<in> set pk" for p
  proof (rule entr_nonneg)
    show "0 \<le> p / sum_list pk"
      using assms that by (simp add: sum_list_nonneg)
    have "p \<le> sum_list pk"
      using assms that by (simp add: member_le_sum_list)
    moreover have "0 \<le> sum_list pk"
      using assms by (simp add: sum_list_nonneg)
    ultimately show "p / sum_list pk \<le> 1"
      by (cases "sum_list pk = 0") (simp_all add: divide_le_eq_1)
  qed
  then have "0 \<le> sum_list (map (\<lambda>p. entr (p / sum_list pk)) pk)"
    by (intro sum_list_nonneg) auto
  then show ?thesis
    by (simp add: entropy_def)
qed

lemma class_counts_sum_nonneg: "0 \<le> sum_list (class_counts cv new_y)"
  by (rule sum_list_nonneg) (auto simp: class_counts_def)

lemma new_entropy_from_nonneg:
  assumes "new_entropy_from cv new_y = Val e"
  shows "0 \<le> e"
proof -
  let ?cc = "class_counts cv new_y"
  have "\<forall>p \<in> set (map (\<lambda>c. c / sum_list ?cc) ?cc). 0 \<le> p"
    using class_counts_sum_nonneg[of cv new_y] by (auto simp: class_counts_def)
  then have "0 \<le> entropy (map (\<lambda>c. c / sum_list ?cc) ?cc) None"
    by (rule entropy_nonneg)
  then show ?thesis
    using assms by (auto simp: new_entropy_from_def Let_def split: if_splits)
qed

lemma new_entropy_nonneg: "new_entropy new_y = Val e \<Longrightarrow> 0 \<le> e"
  unfolding new_entropy_def by (rule new_entropy_from_nonneg)

subsection \<open>When the entropy of a partition is a number\<close>

lemma py_distinct_set: "set (py_distinct xs) = set xs"
proof (induction xs)
  case Nil
  then show ?case by simp
next
  case (Cons x xs)
  have "x \<in> set xs" if "list_ex (py_eq x) xs"
  proof -
    from that obtain z where z: "z \<in> set xs" and e: "py_eq x z"
      by (auto simp: list_ex_iff)
    from e have "x = z" by (cases x; cases z) simp_all
    with z show ?thesis by simp
  qed
  with Cons show ?case by auto
qed

lemma new_entropy_from_defined:
  assumes "Val a \<in> set new_y" and "Val a \<in> set cv"
  shows "new_entropy_from cv new_y \<noteq> NaN"
proof -
  let ?cnt = "\<lambda>v. real (length (filter (\<lambda>c. py_eq c v) new_y))"
  have "filter (\<lambda>c. py_eq c (Val a)) new_y \<noteq> []"
    using assms(1) by (auto simp: filter_empty_conv intro: bexI[of _ "Val a"])
  then have pos: "0 < ?cnt (Val a)" by simp
  have "?cnt (Val a) \<in> set (class_counts cv new_y)"
    using assms(2) by (auto simp: class_counts_def)
  moreover have "\<forall>c \<in> set (class_counts cv new_y). 0 \<le> c"
    by (auto simp: class_counts_def)
  ultimately have "?cnt (Val a) \<le> sum_list (class_counts cv new_y)"
    by (simp add: member_le_sum_list)
  with pos have "sum_list (class_counts cv new_y) \<noteq> 0" by linarith
  then show ?thesis
    by (simp add: new_entropy_from_def Let_def)
qed

lemma new_entropy_defined:
  assumes "NaN \<notin> set new_y"
  shows "new_entropy new_y \<noteq> NaN"
proof (cases new_y)
  case Nil
  then show ?thesis
    by (simp add: new_entropy_def new_entropy_from_def class_counts_def)
next
  case (Cons c cs)
  with assms obtain a where "c = Val a" by (cases c) auto
  with Cons have "Val a \<in> set new_y" by simp
  then show ?thesis
    unfolding new_entropy_def
    by (intro new_entropy_from_defined[of a]) (simp_all add: py_distinct_set)
qed

lemma new_y_from_subset:
  "new_y_from i col y val = Inr new_y \<Longrightarrow> set new_y \<subseteq> set y"
proof (induction col arbitrary: i new_y)
  case Nil
  then show ?case by simp
next
  case (Cons d ds)
  then show ?case
    by (fastforce split: if_splits sum.splits)
qed

subsection \<open>The sign of what the loop returns\<close>

lemma gain_loop_sign:
  assumes "gain_loop n col y vals gain = Inr g"
    and "gain = NaN \<or> (\<exists>r. gain = Val r \<and> 0 \<le> r)"
  shows "g = NaN \<or> (\<exists>r. g = Val r \<and> 0 \<le> r)"
  using assms
proof (induction vals arbitrary: gain)
  case Nil
  then show ?case by simp
next
  case (Cons v vals)
  from Cons.prems(1) obtain new_y where ny: "new_y_from 0 col y v = Inr new_y"
    and n: "n \<noteq> 0"
    and rest: "gain_loop n col y vals
        (fadd gain (fmul (Val (real (length new_y) / real n)) (new_entropy new_y))) = Inr g"
    by (auto split: sum.splits if_splits)
  let ?g' = "fadd gain (fmul (Val (real (length new_y) / real n)) (new_entropy new_y))"
  have "?g' = NaN \<or> (\<exists>r. ?g' = Val r \<and> 0 \<le> r)"
  proof (cases "new_entropy new_y")
    case NaN
    then show ?thesis by simp
  next
    case (Val e)
    then have "0 \<le> e" by (rule new_entropy_nonneg)
    with Val Cons.prems(2) show ?thesis by auto
  qed
  with Cons.IH[OF rest] show ?case by blast
qed

lemma gain_loop_number:
  assumes "gain_loop n col y vals gain = Inr g"
    and "NaN \<notin> set y" and "gain \<noteq> NaN"
  shows "g \<noteq> NaN"
  using assms
proof (induction vals arbitrary: gain)
  case Nil
  then show ?case by simp
next
  case (Cons v vals)
  from Cons.prems(1) obtain new_y where ny: "new_y_from 0 col y v = Inr new_y"
    and rest: "gain_loop n col y vals
        (fadd gain (fmul (Val (real (length new_y) / real n)) (new_entropy new_y))) = Inr g"
    by (auto split: sum.splits if_splits)
  from new_y_from_subset[OF ny] Cons.prems(2) have "NaN \<notin> set new_y" by auto
  then have "new_entropy new_y \<noteq> NaN" by (rule new_entropy_defined)
  then obtain e where "new_entropy new_y = Val e" by (cases "new_entropy new_y") auto
  moreover obtain r where "gain = Val r" using Cons.prems(3) by (cases gain) auto
  ultimately have "fadd gain (fmul (Val (real (length new_y) / real n)) (new_entropy new_y)) \<noteq> NaN"
    by simp
  from Cons.IH[OF rest Cons.prems(2) this] show ?case .
qed

subsection \<open>The loop when every row has a label\<close>

lemma new_y_from_zip:
  "i + length col \<le> length y \<Longrightarrow>
   new_y_from i col y val = Inr (map snd (filter (\<lambda>(d, l). py_eq d val) (zip col (drop i y))))"
proof (induction col arbitrary: i)
  case Nil
  then show ?case by simp
next
  case (Cons d ds)
  then have i: "i < length y" and rest: "Suc i + length ds \<le> length y" by simp_all
  have dr: "drop i y = y ! i # drop (Suc i) y"
    using i by (simp add: Cons_nth_drop_Suc)
  show ?case
    using Cons.IH[OF rest] i by (simp add: dr)
qed

lemma gain_loop_fold:
  assumes "length col \<le> length y" and "n \<noteq> 0"
  shows "gain_loop n col y vals gain =
     Inr (fold (\<lambda>v g. fadd g (fmul (Val (real (length (new_y_at col y v)) / real n))
                                    (new_entropy (new_y_at col y v)))) vals gain)"
  using assms
  by (induction vals arbitrary: gain) (simp_all add: new_y_from_zip new_y_at_def)

lemma info_gain_returns:
  assumes "wf_frame X" and "columns X feature = Some col"
    and "0 < nrows X" and "nrows X \<le> length y"
  shows "\<exists>g. info_gain X y feature = Inr g"
proof -
  have "length col = nrows X"
    using assms(1,2) by (auto simp: wf_frame_def ran_def)
  then show ?thesis
    using assms by (simp add: info_gain_def len_frame_def gain_loop_fold)
qed

subsection \<open>The order of a set does not matter\<close>

text \<open>
  Python's \<open>list(set(...))\<close> fixes no order, and how many NaN entries it holds depends
  on whether the NaNs are one object. The lemmas of this subsection show that neither
  matters: any list with the same elements whose entries other than NaN are distinct
  gives the same entropy (\<open>new_entropy_from_any_order\<close>) and the same result of the
  loop (\<open>gain_loop_any_order\<close>); \<open>py_distinct\<close> gives such a list.
\<close>

lemma sum_list_cells:
  fixes f :: "'a cell \<Rightarrow> real"
  assumes "f NaN = 0" and "distinct (filter (\<lambda>v. v \<noteq> NaN) cv)"
  shows "sum_list (map f cv) = sum f (set cv - {NaN})"
proof -
  have "sum_list (map f cv) = sum_list (map f (filter (\<lambda>v. v \<noteq> NaN) cv))"
    using assms(1) by (intro sum_list_map_filter[symmetric]) simp
  also have "\<dots> = sum f (set (filter (\<lambda>v. v \<noteq> NaN) cv))"
    using assms(2) by (rule sum_list_distinct_conv_sum_set)
  also have "set (filter (\<lambda>v. v \<noteq> NaN) cv) = set cv - {NaN}" by auto
  finally show ?thesis .
qed

lemma py_distinct_distinct: "distinct (filter (\<lambda>v. v \<noteq> NaN) (py_distinct xs))"
proof (induction xs)
  case Nil
  then show ?case by simp
next
  case (Cons x xs)
  have "list_ex (py_eq x) xs" if "x \<in> set xs" and "x \<noteq> NaN"
  proof -
    from that(2) have "py_eq x x" by (cases x) simp_all
    with that(1) show ?thesis by (auto simp: list_ex_iff)
  qed
  with Cons show ?case by (auto simp: py_distinct_set)
qed

lemma new_entropy_from_set:
  assumes "distinct (filter (\<lambda>v. v \<noteq> NaN) cv)"
  shows "new_entropy_from cv new_y =
     (let cnt = (\<lambda>v. real (length (filter (\<lambda>c. py_eq c v) new_y)));
          nc = sum cnt (set cv - {NaN});
          s = sum (\<lambda>v. cnt v / nc) (set cv - {NaN})
      in if set cv \<noteq> {} \<and> nc = 0 then NaN
         else Val (sum (\<lambda>v. entr (cnt v / nc / s)) (set cv - {NaN})))"
proof -
  let ?cnt = "\<lambda>v. real (length (filter (\<lambda>c. py_eq c v) new_y))"
  have z: "?cnt NaN = 0" by simp
  have nc: "sum_list (map ?cnt cv) = sum ?cnt (set cv - {NaN})"
    using z assms by (rule sum_list_cells)
  have s: "sum_list (map (\<lambda>v. ?cnt v / k) cv) = sum (\<lambda>v. ?cnt v / k) (set cv - {NaN})" for k
    using assms by (intro sum_list_cells) simp
  have e: "sum_list (map (\<lambda>v. entr (?cnt v / k)) cv) =
           sum (\<lambda>v. entr (?cnt v / k)) (set cv - {NaN})" for k
    using assms by (intro sum_list_cells) (simp add: entr_def)
  show ?thesis
    unfolding new_entropy_from_def class_counts_def entropy_def Let_def
    by (simp add: comp_def nc s e)
qed

lemma new_entropy_from_any_order:
  assumes "distinct (filter (\<lambda>v. v \<noteq> NaN) cv)" and "distinct (filter (\<lambda>v. v \<noteq> NaN) cv')"
    and "set cv = set cv'"
  shows "new_entropy_from cv new_y = new_entropy_from cv' new_y"
  unfolding new_entropy_from_set[OF assms(1)] new_entropy_from_set[OF assms(2)] assms(3) ..

lemma fold_fadd:
  "fold (\<lambda>v g. fadd g (T v)) vals gain =
     (if gain = NaN \<or> (\<exists>v \<in> set vals. T v = NaN) then NaN
      else Val ((case gain of NaN \<Rightarrow> 0 | Val r \<Rightarrow> r) +
                sum_list (map (\<lambda>v. case T v of NaN \<Rightarrow> 0 | Val r \<Rightarrow> r) vals)))"
proof (induction vals arbitrary: gain)
  case Nil
  then show ?case by (cases gain) simp_all
next
  case (Cons v vals)
  show ?case
    by (cases gain; cases "T v") (simp_all add: Cons.IH add.assoc)
qed

lemma gain_loop_any_order:
  assumes "length col \<le> length y" and "n \<noteq> 0"
    and "distinct (filter (\<lambda>v. v \<noteq> NaN) vals)" and "distinct (filter (\<lambda>v. v \<noteq> NaN) vals')"
    and "set vals = set vals'"
  shows "gain_loop n col y vals gain = gain_loop n col y vals' gain"
proof -
  let ?T = "\<lambda>v. fmul (Val (real (length (new_y_at col y v)) / real n))
                      (new_entropy (new_y_at col y v))"
  let ?num = "\<lambda>v. case ?T v of NaN \<Rightarrow> (0::real) | Val r \<Rightarrow> r"
  have "new_y_at col y NaN = []"
    by (simp add: new_y_at_def filter_empty_conv)
  then have "?T NaN = Val 0"
    by (simp add: new_entropy_def new_entropy_from_def class_counts_def entropy_def)
  then have z: "?num NaN = 0" by simp
  have "sum_list (map ?num vals) = sum ?num (set vals - {NaN})"
    using z assms(3) by (rule sum_list_cells)
  moreover have "sum_list (map ?num vals') = sum ?num (set vals' - {NaN})"
    using z assms(4) by (rule sum_list_cells)
  ultimately have "fold (\<lambda>v g. fadd g (?T v)) vals gain = fold (\<lambda>v g. fadd g (?T v)) vals' gain"
    unfolding fold_fadd using assms(5) by simp
  then show ?thesis
    using assms(1,2) by (simp add: gain_loop_fold)
qed

subsection \<open>Single-class label lists\<close>

lemma py_distinct_single:
  "xs \<noteq> [] \<Longrightarrow> \<forall>c \<in> set xs. c = Val a \<Longrightarrow> py_distinct xs = [Val a]"
proof (induction xs)
  case Nil
  then show ?case by simp
next
  case (Cons x xs)
  then show ?case by (cases xs) auto
qed

lemma new_entropy_single:
  assumes "new_y \<noteq> []" and "\<forall>c \<in> set new_y. py_eq c l"
  shows "new_entropy new_y = Val 0"
proof -
  from assms obtain c0 where "c0 \<in> set new_y" and "py_eq c0 l" by (cases new_y) auto
  then obtain a where l: "l = Val a" by (cases c0; cases l) simp_all
  have all: "\<forall>c \<in> set new_y. c = Val a"
  proof
    fix c assume "c \<in> set new_y"
    with assms(2) l have "py_eq c (Val a)" by simp
    then show "c = Val a" by (cases c) simp_all
  qed
  then have f: "filter (\<lambda>c. py_eq c (Val a)) new_y = new_y"
    by (auto simp: filter_id_conv)
  have cc: "class_counts (py_distinct new_y) new_y = [real (length new_y)]"
    by (simp add: class_counts_def py_distinct_single[OF assms(1) all] f)
  have "length new_y \<noteq> 0" using assms(1) by simp
  then show ?thesis
    by (simp add: new_entropy_def new_entropy_from_def cc entropy_def entr_def)
qed

subsection \<open>A lower bound for \<open>ln 2\<close>\<close>

lemma ln2_lower: "(16/25 :: real) < ln 2"
proof -
  have "exp (4/25 :: real) \<le> 1 + 4/25 + (4/25)\<^sup>2"
    by (rule exp_bound) simp_all
  then have "exp (4/25 :: real) ^ 4 \<le> (1 + 4/25 + (4/25)\<^sup>2) ^ 4"
    by (intro power_mono) simp_all
  also have "\<dots> < (2::real)"
    by (simp add: power2_eq_square power4_eq_xxxx)
  finally have "exp (of_nat 4 * (4/25 :: real)) < 2"
    unfolding exp_of_nat_mult .
  then have "exp (16/25 :: real) < 2" by simp
  then have "exp (16/25 :: real) < exp (ln 2)" by simp
  then show ?thesis by (simp only: exp_less_cancel_iff)
qed

section \<open>Claims about \<open>info_gain\<close>\<close>

text \<open>
  C7 says that, for every non-empty dataset and feature, the value that \<open>info_gain\<close>
  returns is greater than or equal to 0. On two rows with one feature value and the
  labels NaN, NaN no label is \<open>==\<close> to a class value: the counts are 0, \<open>nc\<close> is
  \<open>0.0\<close>, the quotients and the entropy are NaN, and the function returns NaN, for
  which \<open>>= 0\<close> is false.
\<close>

theorem info_gain_nan_counterexample:
  "info_gain \<lparr>nrows = 2, columns = [''f'' \<mapsto> [Val ''a'', Val ''a'']]\<rparr>
      [NaN, NaN :: real cell] ''f'' = Inr NaN
   \<and> \<not> py_ge NaN (Val 0)"
  by (simp add: info_gain_def len_frame_def new_entropy_def new_entropy_from_def class_counts_def)

text \<open>
  C7, amended. A value that \<open>info_gain\<close> returns is NaN or is greater than or equal to
  0; when no label is NaN it is greater than or equal to 0. (Lemma \<open>info_gain_returns\<close>:
  on a well-formed frame with at least one row, a column for the feature and a label for
  every row, the function does return.)
\<close>

theorem info_gain_nonneg:
  assumes "info_gain X y feature = Inr g"
  shows "(g \<noteq> NaN \<longrightarrow> py_ge g (Val 0)) \<and> (NaN \<notin> set y \<longrightarrow> py_ge g (Val 0))"
proof -
  from assms obtain col where "columns X feature = Some col" and
    loop: "gain_loop (len_frame X) col y (py_distinct col) (Val 0) = Inr g"
    by (auto simp: info_gain_def Let_def split: option.splits)
  have sign: "g = NaN \<or> (\<exists>r. g = Val r \<and> 0 \<le> r)"
    using gain_loop_sign[OF loop] by simp
  have "g \<noteq> NaN" if "NaN \<notin> set y"
    using gain_loop_number[OF loop that] by simp
  with sign show ?thesis by auto
qed

theorem info_gain_nonneg_witness:
  "info_gain \<lparr>nrows = 3, columns = [''sex'' \<mapsto> [Val ''m'', Val ''m'', NaN]]\<rparr>
      [Val True, Val False, Val True] ''sex'' = Inr (Val (2 * ln 2 / 3))
   \<and> NaN \<notin> set [Val True, Val False, Val True]
   \<and> py_ge (Val (2 * ln 2 / 3)) (Val 0)"
  using info_gain_nonneg
    [of "\<lparr>nrows = 3, columns = [''sex'' \<mapsto> [Val ''m'', Val ''m'', NaN]]\<rparr>"
        "[Val True, Val False, Val True]" "''sex''" "Val (2 * ln 2 / 3)"]
  by (simp add: info_gain_def len_frame_def new_entropy_def new_entropy_from_def
      class_counts_def entropy_def entr_def ln_div)

text \<open>
  C8. For a non-empty label list whose labels are all equal (\<open>==\<close> to one value), the
  entropy that the loop body computes (\<open>new_entropy\<close>) is exactly 0; and an iteration of
  the loop whose partition \<open>new_y\<close> is such a list leaves \<open>gain\<close> as it was.
\<close>

theorem single_class_entropy_zero:
  assumes "new_y \<noteq> []" and "\<forall>c \<in> set new_y. py_eq c l"
  shows "new_entropy new_y = Val 0 \<and>
         (n \<noteq> 0 \<longrightarrow> new_y_from 0 col y val = Inr new_y \<longrightarrow>
          gain_loop n col y (val # vals) gain = gain_loop n col y vals gain)"
proof -
  have "fadd gain (Val 0) = gain" by (cases gain) simp_all
  then show ?thesis
    using new_entropy_single[OF assms] by simp
qed

theorem single_class_entropy_zero_witness:
  "[Val (1::nat), Val 1] \<noteq> [] \<and> list_all (\<lambda>c. py_eq c (Val 1)) [Val (1::nat), Val 1]
   \<and> new_entropy [Val (1::nat), Val 1] = Val 0
   \<and> (2::nat) \<noteq> 0
   \<and> new_y_from 0 [Val ''a'', Val ''a''] [Val (1::nat), Val 1] (Val ''a'') = Inr [Val 1, Val 1]
   \<and> gain_loop 2 [Val ''a'', Val ''a''] [Val (1::nat), Val 1] [Val ''a''] (Val 0) =
       gain_loop 2 [Val ''a'', Val ''a''] [Val (1::nat), Val 1] [] (Val 0)"
  using single_class_entropy_zero
    [of "[Val (1::nat), Val 1]" "Val 1" 2 "[Val ''a'', Val ''a'']" "[Val (1::nat), Val 1]"
        "Val ''a''" "[]" "Val 0"]
  by simp

text \<open>
  C9. The result of \<open>info_gain(X, y, feature)\<close> depends only on the column
  \<open>X[feature]\<close>, on \<open>y\<close> and on the number of rows: two frames that agree on these give
  the same result (the same value or the same error), whatever their other columns hold.
\<close>

theorem info_gain_other_columns:
  assumes "columns X feature = columns X' feature" and "len_frame X = len_frame X'"
  shows "info_gain X y feature = info_gain X' y feature"
  using assms by (simp add: info_gain_def)

theorem info_gain_other_columns_witness:
  "columns \<lparr>nrows = 2, columns = [''sex'' \<mapsto> [Val ''m'', Val ''f'']]\<rparr> ''sex'' =
   columns \<lparr>nrows = 2, columns = [''sex'' \<mapsto> [Val ''m'', Val ''f''],
                                   ''age'' \<mapsto> [Val ''old'', Val ''old'']]\<rparr> ''sex''
   \<and> len_frame \<lparr>nrows = 2, columns = [''sex'' \<mapsto> [Val ''m'', Val ''f'']]\<rparr> =
     len_frame \<lparr>nrows = 2, columns = [''sex'' \<mapsto> [Val ''m'', Val ''f''],
                                       ''age'' \<mapsto> [Val ''old'', Val ''old'']]\<rparr>
   \<and> info_gain \<lparr>nrows = 2, columns = [''sex'' \<mapsto> [Val ''m'', Val ''f'']]\<rparr>
       [Val True, Val False] ''sex'' =
     info_gain \<lparr>nrows = 2, columns = [''sex'' \<mapsto> [Val ''m'', Val ''f''],
                                       ''age'' \<mapsto> [Val ''old'', Val ''old'']]\<rparr>
       [Val True, Val False] ''sex''"
  using info_gain_other_columns
    [of "\<lparr>nrows = 2, columns = [''sex'' \<mapsto> [Val ''m'', Val ''f'']]\<rparr>" "''sex''"
        "\<lparr>nrows = 2, columns = [''sex'' \<mapsto> [Val ''m'', Val ''f''],
                                  ''age'' \<mapsto> [Val ''old'', Val ''old'']]\<rparr>"
        "[Val True, Val False]"]
  by (simp add: len_frame_def)

text \<open>
  C3 says that an empty dataset makes the evaluator fail with an "empty input" error.
  The function has no such check: on a frame without rows the set of values is empty,
  the loop body never runs, and the initial \<open>gain = 0\<close> is returned.
\<close>

theorem info_gain_empty_counterexample:
  "info_gain \<lparr>nrows = 0, columns = [''f'' \<mapsto> ([] :: nat cell list)]\<rparr> ([] :: nat cell list) ''f''
     = Inr (Val 0)"
  by (simp add: info_gain_def len_frame_def)

text \<open>
  C3, amended. When the dataset is empty (a well-formed frame with no rows) and the
  feature is one of its columns, \<open>info_gain\<close> raises nothing and returns 0, whatever
  \<open>y\<close> is.
\<close>

theorem info_gain_empty:
  assumes "wf_frame X" and "nrows X = 0" and "columns X feature = Some col"
  shows "info_gain X y feature = Inr (Val 0)"
proof -
  have "length col = 0"
    using assms by (auto simp: wf_frame_def ran_def)
  then show ?thesis
    using assms(3) by (simp add: info_gain_def)
qed

theorem info_gain_empty_witness:
  "wf_frame \<lparr>nrows = 0, columns = [''sex'' \<mapsto> ([] :: string cell list)]\<rparr>
   \<and> nrows \<lparr>nrows = 0, columns = [''sex'' \<mapsto> ([] :: string cell list)]\<rparr> = 0
   \<and> info_gain \<lparr>nrows = 0, columns = [''sex'' \<mapsto> ([] :: string cell list)]\<rparr>
        [Val True, Val False] ''sex'' = Inr (Val 0)"
  using info_gain_empty
    [of "\<lparr>nrows = 0, columns = [''sex'' \<mapsto> ([] :: string cell list)]\<rparr>" "''sex''" "[]"
        "[Val True, Val False]"]
  by (simp add: wf_frame_def)

text \<open>
  C1 says that \<open>info_gain\<close> returns the entropy of all labels minus the weighted
  entropies of the partitions, in base 2. The function returns the weighted sum alone,
  never subtracts it from the entropy of \<open>S\<close>, and calls \<open>entropy\<close> without a base.
  On the two rows \<open>a \<mapsto> 0\<close>, \<open>b \<mapsto> 1\<close> each partition is pure: the function returns
  0, where the gain the claim describes is 1.
\<close>

theorem info_gain_omits_entropy_of_S:
  "info_gain \<lparr>nrows = 2, columns = [''f'' \<mapsto> [Val ''a'', Val ''b'']]\<rparr> [Val (0::nat), Val 1] ''f''
     = Inr (Val 0)
   \<and> spec_gain [Val ''a'', Val ''b''] [Val (0::nat), Val 1] = 1"
  by (simp add: info_gain_def len_frame_def new_entropy_def new_entropy_from_def
      class_counts_def entropy_def entr_def spec_gain_def spec_entropy_def labels_at_def log_divide)

text \<open>
  C6 says that a feature with one observed value has gain 0. On the two rows
  \<open>a \<mapsto> 0\<close>, \<open>a \<mapsto> 1\<close> the only partition is the whole dataset, and the function
  returns its entropy in nats, \<open>ln 2\<close>, which is not 0.
\<close>

theorem info_gain_single_value_example:
  "info_gain \<lparr>nrows = 2, columns = [''f'' \<mapsto> [Val ''a'', Val ''a'']]\<rparr> [Val (0::nat), Val 1] ''f''
     = Inr (Val (ln 2))
   \<and> (0::real) < ln 2"
  by (simp add: info_gain_def len_frame_def new_entropy_def new_entropy_from_def
      class_counts_def entropy_def entr_def ln_div)

text \<open>
  C2 is the worked example of the notebook: labels survived, died, died, died and
  feature values v2, v2, v3, v1, with gain about 0.3113. On this input the function
  returns \<open>ln 2 / 2\<close> (about 0.3466): half of the entropy, in nats, of the partition
  \<open>v2\<close>. It is more than 0.008 above 0.3113.
\<close>

theorem info_gain_worked_example:
  "info_gain \<lparr>nrows = 4, columns = [''X'' \<mapsto> [Val ''v2'', Val ''v2'', Val ''v3'', Val ''v1'']]\<rparr>
     [Val ''survived'', Val ''died'', Val ''died'', Val ''died''] ''X'' = Inr (Val (ln 2 / 2))
   \<and> (3113 / 10000 + 8 / 1000 :: real) < ln 2 / 2"
  using ln2_lower
  by (simp add: info_gain_def len_frame_def new_entropy_def new_entropy_from_def
      class_counts_def entropy_def entr_def ln_div)


section \<open>Claims about \<open>batch_train\<close>\<close>

lemma partial_fit_frame:
  assumes "partial_fit L c X y classes h = (err, h')"
  shows "length h' = length h \<and> (\<forall>a. a \<noteq> c \<longrightarrow> h' ! a = h ! a)"
  using assms by (auto simp: partial_fit_def split: prod.splits)

lemma train_loop_frame:
  assumes "train_loop L fs fnames labels batchsize c k rng h = (err, h')"
  shows "length h' = length h \<and> (\<forall>a. a \<noteq> c \<longrightarrow> h' ! a = h ! a)"
  using assms
proof (induction k arbitrary: rng h)
  case 0
  then show ?case by simp
next
  case (Suc k)
  show ?case
  proof (cases "choice L rng (length labels) batchsize")
    case (Inl e)
    with Suc.prems show ?thesis by simp
  next
    case (Inr pr)
    obtain rnd_idx rng' where pr: "pr = (rnd_idx, rng')" by (cases pr)
    show ?thesis
    proof (cases "read_documents fs fnames rnd_idx")
      case (Inl e)
      with Suc.prems Inr pr show ?thesis by simp
    next
      case docs: (Inr documents)
      show ?thesis
      proof (cases "index_labels labels rnd_idx")
        case (Inl e)
        with Suc.prems Inr pr docs show ?thesis by simp
      next
        case labs: (Inr batch_labels)
        obtain e1 h1 where pf: "partial_fit L c (transform L documents) batch_labels [0, 1] h = (e1, h1)"
          by (cases "partial_fit L c (transform L documents) batch_labels [0, 1] h")
        note fr = partial_fit_frame[OF pf]
        show ?thesis
        proof (cases e1)
          case None
          with Suc.prems Inr pr docs labs pf
          have "train_loop L fs fnames labels batchsize c k rng' h1 = (err, h')" by simp
          from Suc.IH[OF this] fr show ?thesis by simp
        next
          case (Some e)
          with Suc.prems Inr pr docs labs pf have "h' = h1" by simp
          with fr show ?thesis by simp
        qed
      qed
    qed
  qed
qed

text \<open>
  C10. \<open>batch_train\<close> never changes the estimator passed as \<open>clf\<close>: whether it returns
  or raises, every object that existed before the call (the one \<open>clf\<close> refers to among
  them) is as it was; exactly one object has been created, the clone; and the reference
  returned is the clone's, different from \<open>clf\<close>.
\<close>

theorem batch_train_leaves_clf:
  assumes "clf < length h"
    and "batch_train L fs clf fnames labels iterations batchsize random_seed h = (r, h')"
  shows "(\<forall>a < length h. h' ! a = h ! a) \<and> length h' = Suc (length h)
         \<and> (\<forall>c. r = Inr c \<longrightarrow> c = length h \<and> c \<noteq> clf)"
proof -
  obtain err where tl: "train_loop L fs fnames labels batchsize (length h) iterations
       (rng_init L random_seed) (h @ [\<lparr>params = params (h ! clf), fitted = None\<rparr>]) = (err, h')"
    and r: "r = (case err of Some e \<Rightarrow> Inl e | None \<Rightarrow> Inr (length h))"
    using assms by (auto simp: batch_train_def clone_def split: prod.splits option.splits)
  from train_loop_frame[OF tl]
  have len: "length h' = Suc (length h)"
    and same: "\<forall>a. a \<noteq> length h \<longrightarrow> h' ! a = (h @ [\<lparr>params = params (h ! clf), fitted = None\<rparr>]) ! a"
    by simp_all
  have "\<forall>a < length h. h' ! a = h ! a"
    using same by (simp add: nth_append)
  moreover have "\<forall>c. r = Inr c \<longrightarrow> c = length h \<and> c \<noteq> clf"
    using r assms(1) by (auto split: option.splits)
  ultimately show ?thesis using len by simp
qed

theorem batch_train_leaves_clf_witness:
  "(0::nat) < length [\<lparr>params = ''log'', fitted = (None :: nat option)\<rparr>]
   \<and> batch_train toy_library [''pos.txt'' \<mapsto> ''good'', ''neg.txt'' \<mapsto> ''bad'']
      0 [''pos.txt'', ''neg.txt''] [1, 0] 2 3 1 [\<lparr>params = ''log'', fitted = None\<rparr>] =
      (Inr 1, [\<lparr>params = ''log'', fitted = None\<rparr>, \<lparr>params = ''log'', fitted = Some 21\<rparr>])
   \<and> [\<lparr>params = ''log'', fitted = None\<rparr>, \<lparr>params = ''log'', fitted = Some (21::nat)\<rparr>] ! 0
       = [\<lparr>params = ''log'', fitted = None\<rparr>] ! 0"
  using batch_train_leaves_clf [of 0 "[\<lparr>params = ''log'', fitted = None\<rparr>]" toy_library
      "[''pos.txt'' \<mapsto> ''good'', ''neg.txt'' \<mapsto> ''bad'']" "[''pos.txt'', ''neg.txt'']" "[1, 0]" 2 3 1
      "Inr 1" "[\<lparr>params = ''log'', fitted = None\<rparr>, \<lparr>params = ''log'', fitted = Some 21\<rparr>]"]
  by (simp add: batch_train_def clone_def toy_library_def partial_fit_def index_labels_def
      numeral_2_eq_2 numeral_3_eq_3)


section \<open>Claims about the tree builder\<close>

lemma collect_map:
  "collect (map (\<lambda>v. (v, F v)) vals) = Inr cs \<Longrightarrow>
   \<forall>(v, c) \<in> set cs. v \<in> set vals \<and> F v = Inr c"
proof (induction vals arbitrary: cs)
  case Nil
  then show ?case by simp
next
  case (Cons a vals)
  then show ?case
    by (cases "F a") (auto split: sum.splits)
qed

lemma id3_paths:
  "id3 rows feats = Inr t \<Longrightarrow> \<forall>p \<in> set (paths t). distinct p \<and> set p \<subseteq> set feats"
proof (induction rows feats arbitrary: t rule: id3.induct)
  case (1 feats)
  then show ?case by (simp add: id3.simps)
next
  case (2 r0 l0 rest feats)
  let ?rows = "(r0, l0) # rest"
  let ?X = "best_feature ?rows feats"
  show ?case
  proof (cases "list_all (\<lambda>(r, l). l = l0) rest \<or> feats = []")
    case True
    with "2.prems" show ?thesis
      by (auto simp: id3.simps split: if_splits)
  next
    case False
    then have mixed: "\<not> list_all (\<lambda>(r, l). l = l0) rest" and ne: "feats \<noteq> []" by simp_all
    from "2.prems" mixed ne have ok: "schema_ok ?rows feats"
      by (auto simp: id3.simps split: if_splits)
    from "2.prems" mixed ne ok obtain cs where
      col: "collect (map (\<lambda>v. (v, id3 (subset_where ?rows ?X v) (removeAll ?X feats)))
                      (observed_values ?rows ?X)) = Inr cs"
      and t: "t = Node ?X cs"
      by (auto simp: id3.simps Let_def split: sum.splits)
    have X: "?X \<in> set feats" using ne by (rule best_feature_mem)
    have child: "\<forall>q \<in> set (paths c). distinct q \<and> set q \<subseteq> set (removeAll ?X feats)"
      if "(v, c) \<in> set cs" for v c
    proof -
      from collect_map[OF col] that
      have v: "v \<in> set (observed_values ?rows ?X)"
        and c: "id3 (subset_where ?rows ?X v) (removeAll ?X feats) = Inr c"
        by auto
      show ?thesis
        using "2.IH"[OF mixed ne _ refl v c] ok by simp
    qed
    show ?thesis
    proof
      fix p assume "p \<in> set (paths t)"
      then obtain v c q where vc: "(v, c) \<in> set cs" and q: "q \<in> set (paths c)" and p: "p = ?X # q"
        unfolding t by auto
      from child[OF vc] q have "distinct q" and "set q \<subseteq> set (removeAll ?X feats)" by auto
      with X p show "distinct p \<and> set p \<subseteq> set feats" by auto
    qed
  qed
qed

lemma log2_4: "log 2 (4::real) = 2"
  using log_pow_cancel[of "2::real" 2] by simp

lemma xor_gain_sex: "feature_gain xor_rows ''sex'' = 0"
  by (simp add: xor_rows_def feature_gain_def spec_gain_def spec_entropy_def labels_at_def
      log_divide log2_4)

lemma xor_gain_adult: "feature_gain xor_rows ''adult'' = 0"
  by (simp add: xor_rows_def feature_gain_def spec_gain_def spec_entropy_def labels_at_def
      log_divide log2_4)

lemma id3_xor_rows:
  "id3 xor_rows [''sex'', ''adult''] =
     Inr (Node ''sex''
       [(''m'', Node ''adult'' [(''y'', Leaf ''no''), (''n'', Leaf ''yes'')]),
        (''f'', Node ''adult'' [(''y'', Leaf ''yes''), (''n'', Leaf ''no'')])])"
proof -
  have "\<not> feature_gain xor_rows ''sex'' < feature_gain xor_rows ''adult''"
    by (simp add: xor_gain_sex xor_gain_adult)
  then show ?thesis
    unfolding xor_rows_def
    by (simp add: id3.simps schema_ok_def best_feature_def observed_values_def
        subset_where_def List.map_filter_def)
qed

text \<open>
  C4. For every non-empty dataset whose examples all share one label, the builder
  returns a single leaf with that label, whatever the candidate features are.
\<close>

theorem id3_pure_labels_leaf:
  assumes "rows \<noteq> []" and "\<forall>(r, l') \<in> set rows. l' = l"
  shows "id3 rows feats = Inr (Leaf l)"
proof -
  obtain r0 l0 rest where rows: "rows = (r0, l0) # rest"
    using assms(1) by (cases rows) auto
  have "l0 = l" using assms(2) rows by simp
  moreover have "list_all (\<lambda>(r, l'). l' = l) rest"
    using assms(2) rows by (auto simp: list_all_iff)
  ultimately show ?thesis
    by (simp add: rows id3.simps)
qed

theorem id3_pure_labels_leaf_witness:
  "[([''sex'' \<mapsto> ''m''], True), ([''sex'' \<mapsto> ''f''], True)] \<noteq> []
   \<and> id3 [([''sex'' \<mapsto> ''m''], True), ([''sex'' \<mapsto> ''f''], True)] [''sex'', ''adult'']
       = Inr (Leaf True)"
  using id3_pure_labels_leaf
    [of "[([''sex'' \<mapsto> ''m''], True), ([''sex'' \<mapsto> ''f''], True)]" True "[''sex'', ''adult'']"]
  by simp

text \<open>
  C5. In a tree that the builder returns, no feature is a splitting feature twice on a
  path from the root to a leaf; and when the tree is an internal node on \<open>X\<close>, then
  \<open>X\<close> was a candidate and each child is what the builder returns on the examples with
  that value of \<open>X\<close> and on the candidates without \<open>X\<close>.
\<close>

theorem id3_removes_chosen_feature:
  assumes "id3 rows feats = Inr t"
  shows "(\<forall>p \<in> set (paths t). distinct p) \<and>
         (\<forall>X children. t = Node X children \<longrightarrow>
            X \<in> set feats \<and>
            (\<forall>(v, c) \<in> set children.
               id3 (subset_where rows X v) (removeAll X feats) = Inr c))"
proof -
  have "\<forall>p \<in> set (paths t). distinct p"
    using id3_paths[OF assms] by blast
  moreover have "X \<in> set feats \<and>
        (\<forall>(v, c) \<in> set children. id3 (subset_where rows X v) (removeAll X feats) = Inr c)"
    if t: "t = Node X children" for X children
  proof (cases rows)
    case Nil
    with assms show ?thesis by (simp add: id3.simps)
  next
    case (Cons a rest)
    obtain r0 l0 where a: "a = (r0, l0)" by (cases a)
    from assms t have step: "feats \<noteq> []" "X = best_feature rows feats"
      "collect (map (\<lambda>v. (v, id3 (subset_where rows X v) (removeAll X feats)))
                      (observed_values rows X)) = Inr children"
      unfolding Cons a
      by (auto simp: id3.simps Let_def split: if_splits sum.splits)
    from collect_map[OF step(3)] best_feature_mem[OF step(1), of rows] step(2)
    show ?thesis by auto
  qed
  ultimately show ?thesis by blast
qed

theorem id3_removes_chosen_feature_witness:
  "id3 xor_rows [''sex'', ''adult''] =
     Inr (Node ''sex''
       [(''m'', Node ''adult'' [(''y'', Leaf ''no''), (''n'', Leaf ''yes'')]),
        (''f'', Node ''adult'' [(''y'', Leaf ''yes''), (''n'', Leaf ''no'')])])
   \<and> list_all distinct (paths (Node ''sex''
       [(''m'', Node ''adult'' [(''y'', Leaf ''no''), (''n'', Leaf ''yes'')]),
        (''f'', Node ''adult'' [(''y'', Leaf ''yes''), (''n'', Leaf ''no'')])]))
   \<and> id3 (subset_where xor_rows ''sex'' ''m'') (removeAll ''sex'' [''sex'', ''adult'']) =
       Inr (Node ''adult'' [(''y'', Leaf ''no''), (''n'', Leaf ''yes'')])"
  using id3_removes_chosen_feature
    [of xor_rows "[''sex'', ''adult'']"
        "Node ''sex''
       [(''m'', Node ''adult'' [(''y'', Leaf ''no''), (''n'', Leaf ''yes'')]),
        (''f'', Node ''adult'' [(''y'', Leaf ''yes''), (''n'', Leaf ''no'')])]"]
  by (simp add: id3_xor_rows list_all_iff)

end
